theory Spec2Isabelle
  imports Main "HOL-Library.Word"
begin

section \<open>The CS35L41 bare-metal test harness (cs35l41/baremetal/main.c)\<close>

text \<open>
  The harness is one C file: a callback handed to the board support package, and
  \<open>main\<close>, whose endless loop services the device under test, samples the push
  button, runs a \<open>switch\<close> over the state variable, clears the button flag and sleeps.
  The board support package (\<open>hw_0_bsp.h\<close>) is not part of the file. Each of its
  functions is an event in a trace of calls; what the hardware answers is an input.
\<close>

subsection \<open>Data\<close>

type_synonym u8 = "8 word"
type_synonym u32 = "32 word"

text \<open>The twelve \<open>#define\<close>s of the state values, with the numbers of the source.\<close>

definition APP_STATE_CAL_PDN :: u8 where "APP_STATE_CAL_PDN = 0"
definition APP_STATE_CAL_BOOTED :: u8 where "APP_STATE_CAL_BOOTED = 1"
definition APP_STATE_CAL_PUP :: u8 where "APP_STATE_CAL_PUP = 2"
definition APP_STATE_CALIBRATED :: u8 where "APP_STATE_CALIBRATED = 3"
definition APP_STATE_PDN :: u8 where "APP_STATE_PDN = 4"
definition APP_STATE_BOOTED :: u8 where "APP_STATE_BOOTED = 5"
definition APP_STATE_PUP :: u8 where "APP_STATE_PUP = 6"
definition APP_STATE_MUTE :: u8 where "APP_STATE_MUTE = 7"
definition APP_STATE_UNMUTE :: u8 where "APP_STATE_UNMUTE = 8"
definition APP_STATE_HIBERNATE :: u8 where "APP_STATE_HIBERNATE = 9"
definition APP_STATE_WAKE :: u8 where "APP_STATE_WAKE = 10"
definition APP_STATE_CHECK_PROCESSING :: u8 where "APP_STATE_CHECK_PROCESSING = 11"

lemmas APP_STATE_defs =
  APP_STATE_CAL_PDN_def APP_STATE_CAL_BOOTED_def APP_STATE_CAL_PUP_def
  APP_STATE_CALIBRATED_def APP_STATE_PDN_def APP_STATE_BOOTED_def APP_STATE_PUP_def
  APP_STATE_MUTE_def APP_STATE_UNMUTE_def APP_STATE_HIBERNATE_def APP_STATE_WAKE_def
  APP_STATE_CHECK_PROCESSING_def

text \<open>
  The two file-level variables: \<open>static uint8_t app_audio_state\<close> and
  \<open>static bool bsp_pb_pressed\<close>.
\<close>

record app_globals =
  app_audio_state :: u8
  bsp_pb_pressed :: bool

text \<open>Their initialisers: \<open>APP_STATE_CAL_PDN\<close> and \<open>false\<close>.\<close>

definition app_globals_init :: app_globals where
  "app_globals_init = \<lparr>app_audio_state = APP_STATE_CAL_PDN, bsp_pb_pressed = False\<rparr>"

text \<open>
  The arguments the harness passes to the board support package are symbolic constants of
  the missing header; they are kept as names.
\<close>

datatype bsp_play_content = BSP_PLAY_SILENCE | BSP_PLAY_STEREO_1KHZ_20DBFS

datatype bsp_pb_id = BSP_PB_ID_USER

text \<open>One constructor for each function of the board support package that \<open>main\<close> calls.\<close>

datatype bsp_call =
    Bsp_initialize
  | Bsp_dut_initialize
  | Bsp_dut_process
  | Bsp_was_pb_pressed bsp_pb_id
  | Bsp_audio_stop
  | Bsp_audio_play_record bsp_play_content
  | Bsp_dut_reset
  | Bsp_dut_boot bool
  | Bsp_dut_power_up
  | Bsp_dut_calibrate
  | Bsp_dut_power_down
  | Bsp_dut_get_id
  | Bsp_dut_set_dig_gain int
  | Bsp_dut_is_processing
  | Bsp_dut_mute bool
  | Bsp_dut_hibernate
  | Bsp_dut_wake
  | Bsp_sleep

text \<open>
  What the hardware answers during one pass of the loop:
  \<^item> \<open>was_pb_pressed\<close>: the value \<open>bsp_was_pb_pressed\<close> returns;
  \<^item> \<open>dut_id\<close>: the byte found in the local \<open>dut_id\<close> after \<open>bsp_dut_get_id(&dut_id)\<close>;
  \<^item> \<open>is_processing\<close>: what \<open>bsp_dut_is_processing\<close> stores through its pointer,
    \<open>None\<close> when it stores nothing.
\<close>

record bsp_answers =
  was_pb_pressed :: bool
  dut_id :: u8
  is_processing :: "bool option"

text \<open>\<open>exit(n)\<close> ends the process; a function that may call it returns a sum.\<close>

datatype process_end = Exit int

subsection \<open>\<open>app_bsp_callback\<close>\<close>

text \<open>
  \<^verbatim>\<open>if (status != BSP_STATUS_OK) { exit(1); } return;\<close>
  The macro \<open>BSP_STATUS_OK\<close> belongs to the missing header and is a parameter: its
  value as the comparison with the \<open>uint32_t\<close> status sees it. The callback neither
  reads nor writes the two variables; the globals are threaded through it so that this
  is visible in its result. When the board support package calls it is not decided by
  this file.
\<close>

definition app_bsp_callback :: "u32 \<Rightarrow> u32 \<Rightarrow> 'a \<Rightarrow> app_globals \<Rightarrow> process_end + app_globals" where
  "app_bsp_callback BSP_STATUS_OK status arg g =
     (if status \<noteq> BSP_STATUS_OK then Inl (Exit 1) else Inr g)"

subsection \<open>The \<open>switch\<close> of \<open>main\<close>\<close>

text \<open>
  Lines 93 to 214 of the source, case by case in the order of the source. The result is
  the pair of the variables after the \<open>switch\<close> and the calls made inside it.
  \<open>BSP_DUT_ID_LEFT\<close> is a macro of the missing header and is a parameter; the
  comparison \<open>dut_id == BSP_DUT_ID_LEFT\<close> is made on promoted integers.
\<close>

definition dispatch :: "int \<Rightarrow> bsp_answers \<Rightarrow> app_globals \<Rightarrow> app_globals \<times> bsp_call list" where
  "dispatch BSP_DUT_ID_LEFT env g =
    (if app_audio_state g = APP_STATE_CAL_PDN then
       (if bsp_pb_pressed g then
          (g\<lparr>app_audio_state := APP_STATE_CAL_BOOTED\<rparr>,
           [Bsp_audio_stop, Bsp_audio_play_record BSP_PLAY_SILENCE, Bsp_dut_reset,
            Bsp_dut_boot True])
        else (g, []))
     else if app_audio_state g = APP_STATE_CAL_BOOTED then
       (if bsp_pb_pressed g then
          (g\<lparr>app_audio_state := APP_STATE_CAL_PUP\<rparr>, [Bsp_dut_power_up])
        else (g, []))
     else if app_audio_state g = APP_STATE_CAL_PUP then
       (if bsp_pb_pressed g then
          (g\<lparr>app_audio_state := APP_STATE_CALIBRATED\<rparr>, [Bsp_dut_calibrate])
        else (g, []))
     else if app_audio_state g = APP_STATE_CALIBRATED then
       (if bsp_pb_pressed g then
          (g\<lparr>app_audio_state := APP_STATE_PDN\<rparr>, [Bsp_dut_power_down])
        else (g, []))
     else if app_audio_state g = APP_STATE_PDN then
       (if bsp_pb_pressed g then
          (g\<lparr>app_audio_state := APP_STATE_BOOTED\<rparr>,
           [Bsp_audio_stop, Bsp_audio_play_record BSP_PLAY_STEREO_1KHZ_20DBFS, Bsp_dut_reset,
            Bsp_dut_boot False, Bsp_dut_get_id] @
           (if uint (dut_id env) = BSP_DUT_ID_LEFT
            then [Bsp_dut_set_dig_gain (- 6)]
            else [Bsp_dut_set_dig_gain (- 10)]))
        else (g, []))
     else if app_audio_state g = APP_STATE_BOOTED then
       (if bsp_pb_pressed g then
          (g\<lparr>app_audio_state := APP_STATE_CHECK_PROCESSING\<rparr>, [Bsp_dut_power_up])
        else (g, []))
     else if app_audio_state g = APP_STATE_CHECK_PROCESSING then
       (if bsp_pb_pressed g then
          (let is_processing0 = False;
               is_processing1 = (case is_processing env of
                                   None \<Rightarrow> is_processing0
                                 | Some b \<Rightarrow> b)
           in (if is_processing1 then g\<lparr>app_audio_state := APP_STATE_PUP\<rparr> else g,
               [Bsp_dut_is_processing]))
        else (g, []))
     else if app_audio_state g = APP_STATE_PUP then
       (if bsp_pb_pressed g then
          (g\<lparr>app_audio_state := APP_STATE_MUTE\<rparr>, [Bsp_dut_mute True])
        else (g, []))
     else if app_audio_state g = APP_STATE_MUTE then
       (if bsp_pb_pressed g then
          (g\<lparr>app_audio_state := APP_STATE_UNMUTE\<rparr>, [Bsp_dut_mute False])
        else (g, []))
     else if app_audio_state g = APP_STATE_UNMUTE then
       (if bsp_pb_pressed g then
          (g\<lparr>app_audio_state := APP_STATE_HIBERNATE\<rparr>, [Bsp_dut_power_down])
        else (g, []))
     else if app_audio_state g = APP_STATE_HIBERNATE then
       (if bsp_pb_pressed g then
          (g\<lparr>app_audio_state := APP_STATE_WAKE\<rparr>, [Bsp_dut_hibernate])
        else (g, []))
     else if app_audio_state g = APP_STATE_WAKE then
       (if bsp_pb_pressed g then
          (g\<lparr>app_audio_state := APP_STATE_CAL_PDN\<rparr>, [Bsp_dut_wake])
        else (g, []))
     else (g, []))"

subsection \<open>The body of the loop, and \<open>main\<close>\<close>

text \<open>
  One pass of \<open>while (1)\<close>, lines 87 to 218: \<open>bsp_dut_process\<close>, the button sample that
  can only set the flag, the \<open>switch\<close>, \<open>bsp_pb_pressed = false\<close>, \<open>bsp_sleep\<close>.
\<close>

definition loop_iteration :: "int \<Rightarrow> bsp_answers \<Rightarrow> app_globals \<Rightarrow> app_globals \<times> bsp_call list" where
  "loop_iteration BSP_DUT_ID_LEFT env g =
    (let g1 = (if was_pb_pressed env then g\<lparr>bsp_pb_pressed := True\<rparr> else g);
         (g2, calls) = dispatch BSP_DUT_ID_LEFT env g1;
         g3 = g2\<lparr>bsp_pb_pressed := False\<rparr>
     in (g3, [Bsp_dut_process, Bsp_was_pb_pressed BSP_PB_ID_USER] @ calls @ [Bsp_sleep]))"

text \<open>
  The loop has no exit. Its behaviour is the family of its finite prefixes: one pass for
  each element of a list of hardware answers, the calls appended in order.
\<close>

fun while_1 :: "int \<Rightarrow> bsp_answers list \<Rightarrow> app_globals \<Rightarrow> app_globals \<times> bsp_call list" where
  "while_1 BSP_DUT_ID_LEFT [] g = (g, [])"
| "while_1 BSP_DUT_ID_LEFT (env # envs) g =
     (let (g1, calls1) = loop_iteration BSP_DUT_ID_LEFT env g;
          (g2, calls2) = while_1 BSP_DUT_ID_LEFT envs g1
      in (g2, calls1 @ calls2))"

text \<open>
  \<open>main\<close> up to the end of the given passes: the two initialisation calls, then the
  loop from the initial values of the variables. The statements after the loop are
  never reached.
\<close>

definition main :: "int \<Rightarrow> bsp_answers list \<Rightarrow> app_globals \<times> bsp_call list" where
  "main BSP_DUT_ID_LEFT envs =
     (let (g, calls) = while_1 BSP_DUT_ID_LEFT envs app_globals_init
      in (g, [Bsp_initialize, Bsp_dut_initialize] @ calls))"

subsection \<open>The state values and the table of the specification\<close>

text \<open>The twelve values the source defines for \<open>app_audio_state\<close>, in the order of their numbers.\<close>

definition defined_states :: "u8 list" where
  "defined_states =
     [APP_STATE_CAL_PDN, APP_STATE_CAL_BOOTED, APP_STATE_CAL_PUP, APP_STATE_CALIBRATED,
      APP_STATE_PDN, APP_STATE_BOOTED, APP_STATE_PUP, APP_STATE_MUTE, APP_STATE_UNMUTE,
      APP_STATE_HIBERNATE, APP_STATE_WAKE, APP_STATE_CHECK_PROCESSING]"

text \<open>
  The state transition table as the specification words it (section 4), without the row
  of CHECK_PROCESSING: current state, actions in order, next state. The row of
  POWERED_DOWN depends on the identity that the device reports. This definition is
  written from the specification, to be compared with \<open>dispatch\<close>.
\<close>

definition spec_transition_table :: "int \<Rightarrow> u8 \<Rightarrow> (u8 \<times> bsp_call list \<times> u8) list" where
  "spec_transition_table BSP_DUT_ID_LEFT identity =
     [(APP_STATE_CAL_PDN,
         [Bsp_audio_stop, Bsp_audio_play_record BSP_PLAY_SILENCE, Bsp_dut_reset,
          Bsp_dut_boot True],
         APP_STATE_CAL_BOOTED),
      (APP_STATE_CAL_BOOTED, [Bsp_dut_power_up], APP_STATE_CAL_PUP),
      (APP_STATE_CAL_PUP, [Bsp_dut_calibrate], APP_STATE_CALIBRATED),
      (APP_STATE_CALIBRATED, [Bsp_dut_power_down], APP_STATE_PDN),
      (APP_STATE_PDN,
         [Bsp_audio_stop, Bsp_audio_play_record BSP_PLAY_STEREO_1KHZ_20DBFS, Bsp_dut_reset,
          Bsp_dut_boot False, Bsp_dut_get_id,
          Bsp_dut_set_dig_gain (if uint identity = BSP_DUT_ID_LEFT then - 6 else - 10)],
         APP_STATE_BOOTED),
      (APP_STATE_BOOTED, [Bsp_dut_power_up], APP_STATE_CHECK_PROCESSING),
      (APP_STATE_PUP, [Bsp_dut_mute True], APP_STATE_MUTE),
      (APP_STATE_MUTE, [Bsp_dut_mute False], APP_STATE_UNMUTE),
      (APP_STATE_UNMUTE, [Bsp_dut_power_down], APP_STATE_HIBERNATE),
      (APP_STATE_HIBERNATE, [Bsp_dut_hibernate], APP_STATE_WAKE),
      (APP_STATE_WAKE, [Bsp_dut_wake], APP_STATE_CAL_PDN)]"

text \<open>
  The sequence of section 4 of the specification as pairs of a state and the state that
  follows it, the row of CHECK_PROCESSING included, the last pair being the wrap.
\<close>

definition spec_sequence :: "(u8 \<times> u8) list" where
  "spec_sequence =
     [(APP_STATE_CAL_PDN, APP_STATE_CAL_BOOTED),
      (APP_STATE_CAL_BOOTED, APP_STATE_CAL_PUP),
      (APP_STATE_CAL_PUP, APP_STATE_CALIBRATED),
      (APP_STATE_CALIBRATED, APP_STATE_PDN),
      (APP_STATE_PDN, APP_STATE_BOOTED),
      (APP_STATE_BOOTED, APP_STATE_CHECK_PROCESSING),
      (APP_STATE_CHECK_PROCESSING, APP_STATE_PUP),
      (APP_STATE_PUP, APP_STATE_MUTE),
      (APP_STATE_MUTE, APP_STATE_UNMUTE),
      (APP_STATE_UNMUTE, APP_STATE_HIBERNATE),
      (APP_STATE_HIBERNATE, APP_STATE_WAKE),
      (APP_STATE_WAKE, APP_STATE_CAL_PDN)]"

text \<open>The place of a state in that sequence, counted from CAL_POWER_DOWN.\<close>

definition sequence_position :: "u8 \<Rightarrow> nat" where
  "sequence_position st =
     (if st = APP_STATE_CHECK_PROCESSING then 6
      else if unat st \<le> 5 then unat st
      else unat st + 1)"

text \<open>
  A pass of the loop without a button press makes exactly these calls.
\<close>

definition idle_calls :: "bsp_call list" where
  "idle_calls = [Bsp_dut_process, Bsp_was_pb_pressed BSP_PB_ID_USER, Bsp_sleep]"

section \<open>Auxiliary facts about the \<open>switch\<close> and the loop\<close>

lemma dispatch_idle: "\<not> bsp_pb_pressed g \<Longrightarrow> dispatch left env g = (g, [])"
  by (simp add: dispatch_def)

lemma dispatch_undefined:
  "app_audio_state g \<notin> set defined_states \<Longrightarrow> dispatch left env g = (g, [])"
  by (simp add: dispatch_def defined_states_def)

lemma dispatch_row:
  assumes "(cur, acts, nxt) \<in> set (spec_transition_table left (dut_id env))"
    and "app_audio_state g = cur" and "bsp_pb_pressed g"
  shows "dispatch left env g = (g\<lparr>app_audio_state := nxt\<rparr>, acts)"
  using assms
  by (auto simp: spec_transition_table_def dispatch_def APP_STATE_defs)

lemma dispatch_check:
  assumes "app_audio_state g = APP_STATE_CHECK_PROCESSING" and "bsp_pb_pressed g"
  shows "dispatch left env g =
          (if is_processing env = Some True then g\<lparr>app_audio_state := APP_STATE_PUP\<rparr> else g,
           [Bsp_dut_is_processing])"
  using assms
  by (auto simp: dispatch_def APP_STATE_defs split: option.splits)

lemma loop_iteration_unfold:
  "loop_iteration left env g =
     ((fst (dispatch left env (if was_pb_pressed env then g\<lparr>bsp_pb_pressed := True\<rparr> else g)))
        \<lparr>bsp_pb_pressed := False\<rparr>,
      [Bsp_dut_process, Bsp_was_pb_pressed BSP_PB_ID_USER]
        @ snd (dispatch left env (if was_pb_pressed env then g\<lparr>bsp_pb_pressed := True\<rparr> else g))
        @ [Bsp_sleep])"
  by (simp add: loop_iteration_def Let_def split: prod.splits)

lemma loop_iteration_idle:
  "\<not> bsp_pb_pressed g \<Longrightarrow> \<not> was_pb_pressed env \<Longrightarrow>
     loop_iteration left env g = (g, idle_calls)"
  by (simp add: loop_iteration_unfold dispatch_idle idle_calls_def)

lemma loop_iteration_undefined:
  "app_audio_state g \<notin> set defined_states \<Longrightarrow>
     loop_iteration left env g = (g\<lparr>bsp_pb_pressed := False\<rparr>, idle_calls)"
  by (simp add: loop_iteration_unfold dispatch_undefined idle_calls_def)

lemma defined_states_rows:
  "st \<in> set defined_states \<Longrightarrow>
     st = APP_STATE_CHECK_PROCESSING \<or> st \<in> fst ` set (spec_transition_table left i)"
  unfolding defined_states_def spec_transition_table_def by auto

lemma row_properties:
  assumes "(cur, acts, nxt) \<in> set (spec_transition_table left i)"
  shows "(cur, nxt) \<in> set spec_sequence" and "nxt \<in> set defined_states"
    and "Bsp_dut_process \<notin> set acts" and "nxt \<noteq> cur" and "cur \<in> set defined_states"
    and "cur \<noteq> APP_STATE_CHECK_PROCESSING"
  using assms
  unfolding spec_transition_table_def spec_sequence_def defined_states_def APP_STATE_defs
  by auto

lemma dispatch_cases:
  obtains (idle) "dispatch left env g = (g, [])"
  | (row) cur acts nxt where
      "(cur, acts, nxt) \<in> set (spec_transition_table left (dut_id env))"
      "app_audio_state g = cur" "bsp_pb_pressed g"
      "dispatch left env g = (g\<lparr>app_audio_state := nxt\<rparr>, acts)"
  | (check) "app_audio_state g = APP_STATE_CHECK_PROCESSING" "bsp_pb_pressed g"
      "dispatch left env g =
         (if is_processing env = Some True then g\<lparr>app_audio_state := APP_STATE_PUP\<rparr> else g,
          [Bsp_dut_is_processing])"
proof (cases "bsp_pb_pressed g")
  case False
  then show ?thesis using idle dispatch_idle by blast
next
  case pressed: True
  show ?thesis
  proof (cases "app_audio_state g \<in> set defined_states")
    case False
    then show ?thesis using idle dispatch_undefined by blast
  next
    case True
    from defined_states_rows [OF True, of left "dut_id env"]
    show ?thesis
    proof
      assume c: "app_audio_state g = APP_STATE_CHECK_PROCESSING"
      show ?thesis using check [OF c pressed dispatch_check [OF c pressed]] .
    next
      assume "app_audio_state g \<in> fst ` set (spec_transition_table left (dut_id env))"
      then obtain acts nxt where
        r: "(app_audio_state g, acts, nxt) \<in> set (spec_transition_table left (dut_id env))"
        by force
      show ?thesis using row [OF r refl pressed dispatch_row [OF r refl pressed]] .
    qed
  qed
qed

lemma dispatch_no_process: "Bsp_dut_process \<notin> set (snd (dispatch left env g))"
  by (cases left env g rule: dispatch_cases) (simp_all add: row_properties)

lemma dispatch_forward:
  "app_audio_state (fst (dispatch left env g)) = app_audio_state g
   \<or> (app_audio_state g, app_audio_state (fst (dispatch left env g))) \<in> set spec_sequence"
proof (cases left env g rule: dispatch_cases)
  case idle
  then show ?thesis by simp
next
  case (row cur acts nxt)
  then show ?thesis using row_properties(1) [OF row(1)] by simp
next
  case check
  then show ?thesis by (simp add: spec_sequence_def)
qed

lemma dispatch_defined:
  assumes "app_audio_state g \<in> set defined_states"
  shows "app_audio_state (fst (dispatch left env g)) \<in> set defined_states"
proof (cases left env g rule: dispatch_cases)
  case idle
  then show ?thesis using assms by simp
next
  case (row cur acts nxt)
  then show ?thesis using row_properties(2) [OF row(1)] by simp
next
  case check
  then show ?thesis using assms by (simp add: defined_states_def)
qed

lemma dispatch_flag:
  "bsp_pb_pressed (fst (dispatch left env g)) = bsp_pb_pressed g"
  by (cases left env g rule: dispatch_cases) simp_all

lemma while_1_Cons:
  "while_1 left (env # envs) g =
     (fst (while_1 left envs (fst (loop_iteration left env g))),
      snd (loop_iteration left env g) @ snd (while_1 left envs (fst (loop_iteration left env g))))"
  by (simp add: Let_def split: prod.splits)

lemma loop_iteration_flag: "\<not> bsp_pb_pressed (fst (loop_iteration left env g))"
  by (simp add: loop_iteration_unfold)

lemma loop_iteration_defined:
  "app_audio_state g \<in> set defined_states \<Longrightarrow>
     app_audio_state (fst (loop_iteration left env g)) \<in> set defined_states"
  by (simp add: loop_iteration_unfold dispatch_defined)

lemma while_1_defined:
  "app_audio_state g \<in> set defined_states \<Longrightarrow>
     app_audio_state (fst (while_1 left envs g)) \<in> set defined_states"
proof (induction envs arbitrary: g)
  case Nil
  then show ?case by simp
next
  case (Cons env envs)
  show ?case
    unfolding while_1_Cons fst_conv
    by (rule Cons.IH) (rule loop_iteration_defined [OF Cons.prems])
qed

lemma row_position:
  assumes "(cur, acts, nxt) \<in> set (spec_transition_table left i)"
  shows "sequence_position nxt = (sequence_position cur + 1) mod 12"
  using assms
  unfolding spec_transition_table_def sequence_position_def APP_STATE_defs
  by auto

lemma position_zero:
  "st \<in> set defined_states \<Longrightarrow> (st = APP_STATE_CAL_PDN) = (sequence_position st = 0)"
  unfolding defined_states_def sequence_position_def APP_STATE_defs
  by auto

lemma position_less:
  "st \<in> set defined_states \<Longrightarrow> sequence_position st < 12"
  unfolding defined_states_def sequence_position_def APP_STATE_defs
  by auto

lemma dispatch_position:
  assumes "app_audio_state g \<in> set defined_states" and "bsp_pb_pressed g"
    and "is_processing env = Some True"
  shows "sequence_position (app_audio_state (fst (dispatch left env g)))
           = (sequence_position (app_audio_state g) + 1) mod 12"
proof (cases left env g rule: dispatch_cases)
  case idle
  from defined_states_rows [OF assms(1), of left "dut_id env"]
  show ?thesis
  proof
    assume c: "app_audio_state g = APP_STATE_CHECK_PROCESSING"
    from dispatch_check [OF c assms(2), of left env] idle assms(3) show ?thesis by simp
  next
    assume "app_audio_state g \<in> fst ` set (spec_transition_table left (dut_id env))"
    then obtain acts nxt where
      r: "(app_audio_state g, acts, nxt) \<in> set (spec_transition_table left (dut_id env))"
      by force
    from dispatch_row [OF r refl assms(2)] idle have "nxt = app_audio_state g"
      by (metis app_globals.select_convs(1) app_globals.surjective app_globals.update_convs(1) fst_conv)
    with row_properties(4) [OF r] show ?thesis by simp
  qed
next
  case (row cur acts nxt)
  then show ?thesis using row_position [OF row(1)] by simp
next
  case check
  then show ?thesis using assms(3)
    by (simp add: sequence_position_def APP_STATE_defs)
qed

lemma loop_iteration_position:
  assumes "app_audio_state g \<in> set defined_states" and "\<not> bsp_pb_pressed g"
    and "is_processing env = Some True"
  shows "sequence_position (app_audio_state (fst (loop_iteration left env g)))
           = (sequence_position (app_audio_state g) + (if was_pb_pressed env then 1 else 0)) mod 12"
proof (cases "was_pb_pressed env")
  case True
  then show ?thesis
    using dispatch_position [of "g\<lparr>bsp_pb_pressed := True\<rparr>" env left] assms
    by (simp add: loop_iteration_unfold)
next
  case False
  then show ?thesis
    using assms position_less [OF assms(1)]
    by (simp add: loop_iteration_idle)
qed

lemma while_1_position:
  assumes "\<forall>env \<in> set envs. is_processing env = Some True"
    and "app_audio_state g \<in> set defined_states" and "\<not> bsp_pb_pressed g"
  shows "sequence_position (app_audio_state (fst (while_1 left envs g)))
           = (sequence_position (app_audio_state g) + length (filter was_pb_pressed envs)) mod 12"
  using assms
proof (induction envs arbitrary: g)
  case Nil
  then show ?case using position_less by simp
next
  case (Cons env envs)
  let ?g1 = "fst (loop_iteration left env g)"
  have p: "is_processing env = Some True" and rest: "\<forall>e \<in> set envs. is_processing e = Some True"
    using Cons.prems(1) by simp_all
  have step: "sequence_position (app_audio_state ?g1)
           = (sequence_position (app_audio_state g) + (if was_pb_pressed env then 1 else 0)) mod 12"
    by (rule loop_iteration_position [OF Cons.prems(2) Cons.prems(3) p])
  have "sequence_position (app_audio_state (fst (while_1 left envs ?g1)))
          = (sequence_position (app_audio_state ?g1) + length (filter was_pb_pressed envs)) mod 12"
    by (rule Cons.IH [OF rest loop_iteration_defined [OF Cons.prems(2)] loop_iteration_flag])
  then show ?case
    unfolding while_1_Cons fst_conv step
    by (simp add: mod_add_left_eq add.assoc)
qed

lemma main_unfold:
  "main left envs = (fst (while_1 left envs app_globals_init),
                     [Bsp_initialize, Bsp_dut_initialize] @ snd (while_1 left envs app_globals_init))"
  by (simp add: main_def split: prod.splits)

lemma init_defined: "app_audio_state app_globals_init \<in> set defined_states"
  and init_flag: "\<not> bsp_pb_pressed app_globals_init"
  and init_position: "sequence_position (app_audio_state app_globals_init) = 0"
  by (simp_all add: app_globals_init_def defined_states_def sequence_position_def APP_STATE_defs)

lemma fst_while_1_Cons:
  "fst (while_1 left (env # envs) g) = fst (while_1 left envs (fst (loop_iteration left env g)))"
  unfolding while_1_Cons by simp

lemma fst_main: "fst (main left envs) = fst (while_1 left envs app_globals_init)"
  by (simp add: main_unfold)

lemma fst_loop_iteration:
  "fst (loop_iteration left env g) =
     (fst (dispatch left env (if was_pb_pressed env then g\<lparr>bsp_pb_pressed := True\<rparr> else g)))
        \<lparr>bsp_pb_pressed := False\<rparr>"
  by (simp add: loop_iteration_unfold)

lemma defined_states_less: "(st \<in> set defined_states) = (st < 12)"
proof
  assume "st \<in> set defined_states"
  then show "st < 12"
    unfolding defined_states_def APP_STATE_defs by auto
next
  assume "st < 12"
  then have "unat st < 12" by (simp add: word_less_nat_alt)
  then have "unat st = 0 \<or> unat st = 1 \<or> unat st = 2 \<or> unat st = 3 \<or> unat st = 4
      \<or> unat st = 5 \<or> unat st = 6 \<or> unat st = 7 \<or> unat st = 8 \<or> unat st = 9
      \<or> unat st = 10 \<or> unat st = 11"
    by arith
  then have "st = 0 \<or> st = 1 \<or> st = 2 \<or> st = 3 \<or> st = 4 \<or> st = 5 \<or> st = 6
      \<or> st = 7 \<or> st = 8 \<or> st = 9 \<or> st = 10 \<or> st = 11"
    by (simp add: word_unat_eq_iff)
  then show "st \<in> set defined_states"
    unfolding defined_states_def APP_STATE_defs by simp
qed

lemma while_1_undefined:
  "app_audio_state g \<notin> set defined_states \<Longrightarrow>
     app_audio_state (fst (while_1 left envs g)) = app_audio_state g
     \<and> snd (while_1 left envs g) = concat (map (\<lambda>env. idle_calls) envs)"
proof (induction envs arbitrary: g)
  case Nil
  then show ?case by simp
next
  case (Cons env envs)
  have l: "loop_iteration left env g = (g\<lparr>bsp_pb_pressed := False\<rparr>, idle_calls)"
    by (rule loop_iteration_undefined [OF Cons.prems])
  have "app_audio_state (g\<lparr>bsp_pb_pressed := False\<rparr>) \<notin> set defined_states"
    using Cons.prems by simp
  from Cons.IH [OF this] show ?case
    unfolding while_1_Cons l by simp
qed

section \<open>The fatal callback\<close>

text \<open>
  C7. The callback registered with \<open>bsp_initialize\<close>, called with any status other than
  \<open>BSP_STATUS_OK\<close>, ends the process with exit status 1; called with \<open>BSP_STATUS_OK\<close>
  it returns, and the two variables of the harness are as they were.
\<close>

theorem app_bsp_callback_exit:
  "(status \<noteq> BSP_STATUS_OK \<longrightarrow> app_bsp_callback BSP_STATUS_OK status arg g = Inl (Exit 1))
   \<and> app_bsp_callback BSP_STATUS_OK BSP_STATUS_OK arg g = Inr g"
  by (simp add: app_bsp_callback_def)

theorem app_bsp_callback_exit_witness:
  "(1 :: u32) \<noteq> 0
   \<and> app_bsp_callback 0 1 () app_globals_init = Inl (Exit 1)
   \<and> app_bsp_callback 0 0 () app_globals_init = Inr app_globals_init"
  using app_bsp_callback_exit [of 1 0 "()" app_globals_init] by simp

section \<open>The transitions of the \<open>switch\<close>\<close>

text \<open>
  C1. For each of the eleven states other than CHECK_PROCESSING, when the button flag is
  true the \<open>switch\<close> moves the state variable once, to the next state of that row of
  the table of the specification, and makes the calls of that row, in that order; the
  next state differs from the current one. When the flag is false the \<open>switch\<close>
  leaves the variables as they are and makes no call. The last conjunct lists the pairs
  of current and next state of the table: CAL_POWER_DOWN to CAL_BOOTED, CAL_BOOTED to
  CAL_POWERED_UP, CAL_POWERED_UP to CALIBRATED, CALIBRATED to POWERED_DOWN, POWERED_DOWN
  to BOOTED, BOOTED to CHECK_PROCESSING, POWERED_UP to MUTE, MUTE to UNMUTE, UNMUTE to
  HIBERNATE, HIBERNATE to WAKE, WAKE to CAL_POWER_DOWN.
\<close>

theorem dispatch_matches_table:
  "((cur, acts, nxt) \<in> set (spec_transition_table left (dut_id env))
      \<and> app_audio_state g = cur \<and> bsp_pb_pressed g
     \<longrightarrow> dispatch left env g = (g\<lparr>app_audio_state := nxt\<rparr>, acts) \<and> nxt \<noteq> cur)
   \<and> (\<not> bsp_pb_pressed g \<longrightarrow> dispatch left env g = (g, []))
   \<and> map (\<lambda>(c, a, n). (c, n)) (spec_transition_table left (dut_id env)) =
       [(APP_STATE_CAL_PDN, APP_STATE_CAL_BOOTED),
        (APP_STATE_CAL_BOOTED, APP_STATE_CAL_PUP),
        (APP_STATE_CAL_PUP, APP_STATE_CALIBRATED),
        (APP_STATE_CALIBRATED, APP_STATE_PDN),
        (APP_STATE_PDN, APP_STATE_BOOTED),
        (APP_STATE_BOOTED, APP_STATE_CHECK_PROCESSING),
        (APP_STATE_PUP, APP_STATE_MUTE),
        (APP_STATE_MUTE, APP_STATE_UNMUTE),
        (APP_STATE_UNMUTE, APP_STATE_HIBERNATE),
        (APP_STATE_HIBERNATE, APP_STATE_WAKE),
        (APP_STATE_WAKE, APP_STATE_CAL_PDN)]"
proof (intro conjI impI)
  assume a: "(cur, acts, nxt) \<in> set (spec_transition_table left (dut_id env))
      \<and> app_audio_state g = cur \<and> bsp_pb_pressed g"
  then show "dispatch left env g = (g\<lparr>app_audio_state := nxt\<rparr>, acts)"
    using dispatch_row by blast
  from a show "nxt \<noteq> cur" using row_properties(4) by blast
next
  assume "\<not> bsp_pb_pressed g"
  then show "dispatch left env g = (g, [])" by (rule dispatch_idle)
next
  show "map (\<lambda>(c, a, n). (c, n)) (spec_transition_table left (dut_id env)) =
       [(APP_STATE_CAL_PDN, APP_STATE_CAL_BOOTED),
        (APP_STATE_CAL_BOOTED, APP_STATE_CAL_PUP),
        (APP_STATE_CAL_PUP, APP_STATE_CALIBRATED),
        (APP_STATE_CALIBRATED, APP_STATE_PDN),
        (APP_STATE_PDN, APP_STATE_BOOTED),
        (APP_STATE_BOOTED, APP_STATE_CHECK_PROCESSING),
        (APP_STATE_PUP, APP_STATE_MUTE),
        (APP_STATE_MUTE, APP_STATE_UNMUTE),
        (APP_STATE_UNMUTE, APP_STATE_HIBERNATE),
        (APP_STATE_HIBERNATE, APP_STATE_WAKE),
        (APP_STATE_WAKE, APP_STATE_CAL_PDN)]"
    by (simp add: spec_transition_table_def)
qed

theorem dispatch_matches_table_witness:
  "dispatch 0 \<lparr>was_pb_pressed = True, dut_id = 0, is_processing = None\<rparr>
      \<lparr>app_audio_state = APP_STATE_CAL_PUP, bsp_pb_pressed = True\<rparr>
     = (\<lparr>app_audio_state = APP_STATE_CALIBRATED, bsp_pb_pressed = True\<rparr>, [Bsp_dut_calibrate])
   \<and> APP_STATE_CALIBRATED \<noteq> APP_STATE_CAL_PUP
   \<and> dispatch 0 \<lparr>was_pb_pressed = False, dut_id = 0, is_processing = None\<rparr>
      \<lparr>app_audio_state = APP_STATE_CAL_PUP, bsp_pb_pressed = False\<rparr>
     = (\<lparr>app_audio_state = APP_STATE_CAL_PUP, bsp_pb_pressed = False\<rparr>, [])"
  using
    dispatch_matches_table [of APP_STATE_CAL_PUP "[Bsp_dut_calibrate]" APP_STATE_CALIBRATED 0
      "\<lparr>was_pb_pressed = True, dut_id = 0, is_processing = None\<rparr>"
      "\<lparr>app_audio_state = APP_STATE_CAL_PUP, bsp_pb_pressed = True\<rparr>"]
    dispatch_matches_table [of APP_STATE_CAL_PUP "[Bsp_dut_calibrate]" APP_STATE_CALIBRATED 0
      "\<lparr>was_pb_pressed = False, dut_id = 0, is_processing = None\<rparr>"
      "\<lparr>app_audio_state = APP_STATE_CAL_PUP, bsp_pb_pressed = False\<rparr>"]
  by (simp add: spec_transition_table_def)

text \<open>
  C3. In state CHECK_PROCESSING with the button flag true: when the query stores false,
  the \<open>switch\<close> leaves the state at CHECK_PROCESSING and the pass of the loop ends
  with the flag cleared; when the query stores true, the state becomes POWERED_UP.
\<close>

theorem check_processing_gate:
  assumes "app_audio_state g = APP_STATE_CHECK_PROCESSING" and "bsp_pb_pressed g"
  shows "(is_processing env = Some False \<longrightarrow>
            fst (dispatch left env g) = g
            \<and> fst (loop_iteration left env g) = g\<lparr>bsp_pb_pressed := False\<rparr>)
       \<and> (is_processing env = Some True \<longrightarrow>
            fst (dispatch left env g) = g\<lparr>app_audio_state := APP_STATE_PUP\<rparr>
            \<and> fst (loop_iteration left env g)
                = g\<lparr>app_audio_state := APP_STATE_PUP, bsp_pb_pressed := False\<rparr>)"
proof -
  have same: "(if was_pb_pressed env then g\<lparr>bsp_pb_pressed := True\<rparr> else g) = g"
    using assms(2) by simp
  show ?thesis
    unfolding fst_loop_iteration same dispatch_check [OF assms]
    by simp
qed

theorem check_processing_gate_witness:
  "fst (dispatch 0 \<lparr>was_pb_pressed = True, dut_id = 0, is_processing = Some False\<rparr>
          \<lparr>app_audio_state = APP_STATE_CHECK_PROCESSING, bsp_pb_pressed = True\<rparr>)
     = \<lparr>app_audio_state = APP_STATE_CHECK_PROCESSING, bsp_pb_pressed = True\<rparr>
   \<and> fst (loop_iteration 0 \<lparr>was_pb_pressed = True, dut_id = 0, is_processing = Some False\<rparr>
          \<lparr>app_audio_state = APP_STATE_CHECK_PROCESSING, bsp_pb_pressed = True\<rparr>)
     = \<lparr>app_audio_state = APP_STATE_CHECK_PROCESSING, bsp_pb_pressed = False\<rparr>
   \<and> fst (dispatch 0 \<lparr>was_pb_pressed = True, dut_id = 0, is_processing = Some True\<rparr>
          \<lparr>app_audio_state = APP_STATE_CHECK_PROCESSING, bsp_pb_pressed = True\<rparr>)
     = \<lparr>app_audio_state = APP_STATE_PUP, bsp_pb_pressed = True\<rparr>"
  using
    check_processing_gate [of "\<lparr>app_audio_state = APP_STATE_CHECK_PROCESSING, bsp_pb_pressed = True\<rparr>"
      "\<lparr>was_pb_pressed = True, dut_id = 0, is_processing = Some False\<rparr>" 0]
    check_processing_gate [of "\<lparr>app_audio_state = APP_STATE_CHECK_PROCESSING, bsp_pb_pressed = True\<rparr>"
      "\<lparr>was_pb_pressed = True, dut_id = 0, is_processing = Some True\<rparr>" 0]
  by simp

text \<open>
  C4. In state POWERED_DOWN with the button flag true the calls are, in this order: stop
  audio, play the stereo 1 kHz tone, reset the device, boot it in normal mode, query its
  identity, set the digital gain; the gain is -6 when the identity equals
  \<open>BSP_DUT_ID_LEFT\<close> and -10 for every other identity; the state becomes BOOTED.
\<close>

theorem powered_down_to_booted:
  assumes "app_audio_state g = APP_STATE_PDN" and "bsp_pb_pressed g"
  shows "dispatch left env g =
          (g\<lparr>app_audio_state := APP_STATE_BOOTED\<rparr>,
           [Bsp_audio_stop, Bsp_audio_play_record BSP_PLAY_STEREO_1KHZ_20DBFS, Bsp_dut_reset,
            Bsp_dut_boot False, Bsp_dut_get_id,
            Bsp_dut_set_dig_gain (if uint (dut_id env) = left then - 6 else - 10)])"
  using assms by (simp add: dispatch_def APP_STATE_defs)

theorem powered_down_to_booted_witness:
  "dispatch 0 \<lparr>was_pb_pressed = True, dut_id = 0, is_processing = None\<rparr>
      \<lparr>app_audio_state = APP_STATE_PDN, bsp_pb_pressed = True\<rparr>
     = (\<lparr>app_audio_state = APP_STATE_BOOTED, bsp_pb_pressed = True\<rparr>,
        [Bsp_audio_stop, Bsp_audio_play_record BSP_PLAY_STEREO_1KHZ_20DBFS, Bsp_dut_reset,
         Bsp_dut_boot False, Bsp_dut_get_id, Bsp_dut_set_dig_gain (- 6)])
   \<and> dispatch 0 \<lparr>was_pb_pressed = True, dut_id = 1, is_processing = None\<rparr>
      \<lparr>app_audio_state = APP_STATE_PDN, bsp_pb_pressed = True\<rparr>
     = (\<lparr>app_audio_state = APP_STATE_BOOTED, bsp_pb_pressed = True\<rparr>,
        [Bsp_audio_stop, Bsp_audio_play_record BSP_PLAY_STEREO_1KHZ_20DBFS, Bsp_dut_reset,
         Bsp_dut_boot False, Bsp_dut_get_id, Bsp_dut_set_dig_gain (- 10)])"
  using
    powered_down_to_booted [of "\<lparr>app_audio_state = APP_STATE_PDN, bsp_pb_pressed = True\<rparr>" 0
      "\<lparr>was_pb_pressed = True, dut_id = 0, is_processing = None\<rparr>"]
    powered_down_to_booted [of "\<lparr>app_audio_state = APP_STATE_PDN, bsp_pb_pressed = True\<rparr>" 0
      "\<lparr>was_pb_pressed = True, dut_id = 1, is_processing = None\<rparr>"]
  by simp

section \<open>The cycle of the sequencer\<close>

text \<open>
  C2, as the code has it. The cycle has twelve transitions, not eleven: starting from the
  initial state CAL_POWER_DOWN, with the processing query storing true in every pass,
  the state variable is CAL_POWER_DOWN again exactly when the number of passes in which
  the button was found pressed is a multiple of 12. So 12 accepted presses return it to
  CAL_POWER_DOWN, and no smaller positive number does.
\<close>

theorem full_cycle_twelve_presses:
  assumes "\<forall>env \<in> set envs. is_processing env = Some True"
  shows "(app_audio_state (fst (main left envs)) = APP_STATE_CAL_PDN)
           = (12 dvd length (filter was_pb_pressed envs))"
proof -
  let ?st = "app_audio_state (fst (while_1 left envs app_globals_init))"
  have d: "?st \<in> set defined_states"
    by (rule while_1_defined [OF init_defined])
  have "sequence_position ?st = length (filter was_pb_pressed envs) mod 12"
    using while_1_position [OF assms init_defined init_flag, of left]
    by (simp add: init_position)
  then show ?thesis
    unfolding main_unfold fst_conv position_zero [OF d]
    by (simp add: dvd_eq_mod_eq_0)
qed

theorem full_cycle_twelve_presses_witness:
  "is_processing \<lparr>was_pb_pressed = True, dut_id = 0, is_processing = Some True\<rparr> = Some True
   \<and> length (filter was_pb_pressed
        (replicate 12 \<lparr>was_pb_pressed = True, dut_id = 0, is_processing = Some True\<rparr>)) = 12
   \<and> app_audio_state (fst (main 0
        (replicate 12 \<lparr>was_pb_pressed = True, dut_id = 0, is_processing = Some True\<rparr>)))
      = APP_STATE_CAL_PDN"
  using full_cycle_twelve_presses
    [of "replicate 12 \<lparr>was_pb_pressed = True, dut_id = 0, is_processing = Some True\<rparr>" 0]
  by simp

text \<open>
  C2, as the specification states it, fails: after 11 accepted presses from the initial
  state, the processing query storing true, the state variable is not CAL_POWER_DOWN
  (it is WAKE).
\<close>

theorem eleven_presses_counterexample:
  "app_audio_state (fst (main 0
      [\<lparr>was_pb_pressed = True, dut_id = 0, is_processing = Some True\<rparr>,
       \<lparr>was_pb_pressed = True, dut_id = 0, is_processing = Some True\<rparr>,
       \<lparr>was_pb_pressed = True, dut_id = 0, is_processing = Some True\<rparr>,
       \<lparr>was_pb_pressed = True, dut_id = 0, is_processing = Some True\<rparr>,
       \<lparr>was_pb_pressed = True, dut_id = 0, is_processing = Some True\<rparr>,
       \<lparr>was_pb_pressed = True, dut_id = 0, is_processing = Some True\<rparr>,
       \<lparr>was_pb_pressed = True, dut_id = 0, is_processing = Some True\<rparr>,
       \<lparr>was_pb_pressed = True, dut_id = 0, is_processing = Some True\<rparr>,
       \<lparr>was_pb_pressed = True, dut_id = 0, is_processing = Some True\<rparr>,
       \<lparr>was_pb_pressed = True, dut_id = 0, is_processing = Some True\<rparr>,
       \<lparr>was_pb_pressed = True, dut_id = 0, is_processing = Some True\<rparr>]))
   \<noteq> APP_STATE_CAL_PDN"
  by (simp add: fst_main fst_while_1_Cons fst_loop_iteration dispatch_def
      app_globals_init_def APP_STATE_defs del: while_1.simps(2))

text \<open>
  C6. After any number of passes of the loop from the initial values, the state variable
  holds one of the twelve defined values. In one pass the state variable either keeps its
  value or moves to the state that follows it in the sequence of section 4 of the
  specification. That sequence is one cycle through the twelve states: no state occurs
  twice as a current state, and the next states are the current states shifted by one,
  the last pair being the wrap from WAKE to CAL_POWER_DOWN.
\<close>

theorem state_defined_and_forward:
  "app_audio_state (fst (main left envs)) \<in> set defined_states
   \<and> (app_audio_state (fst (loop_iteration left env g)) \<noteq> app_audio_state g \<longrightarrow>
        (app_audio_state g, app_audio_state (fst (loop_iteration left env g))) \<in> set spec_sequence)
   \<and> distinct (map fst spec_sequence)
   \<and> map snd spec_sequence = rotate1 (map fst spec_sequence)
   \<and> set (map fst spec_sequence) = set defined_states"
proof (intro conjI impI)
  show "app_audio_state (fst (main left envs)) \<in> set defined_states"
    unfolding fst_main by (rule while_1_defined [OF init_defined])
next
  assume "app_audio_state (fst (loop_iteration left env g)) \<noteq> app_audio_state g"
  then show "(app_audio_state g, app_audio_state (fst (loop_iteration left env g))) \<in> set spec_sequence"
    using dispatch_forward [of left env "if was_pb_pressed env then g\<lparr>bsp_pb_pressed := True\<rparr> else g"]
    by (simp add: fst_loop_iteration split: if_splits)
next
  show "distinct (map fst spec_sequence)"
    by (simp add: spec_sequence_def APP_STATE_defs)
next
  show "map snd spec_sequence = rotate1 (map fst spec_sequence)"
    by (simp add: spec_sequence_def)
next
  show "set (map fst spec_sequence) = set defined_states"
    by (auto simp: spec_sequence_def defined_states_def)
qed

theorem state_defined_and_forward_witness:
  "app_audio_state (fst (main 0 [\<lparr>was_pb_pressed = True, dut_id = 0, is_processing = None\<rparr>]))
      \<in> set defined_states
   \<and> app_audio_state (fst (loop_iteration 0
        \<lparr>was_pb_pressed = True, dut_id = 0, is_processing = None\<rparr> app_globals_init))
      \<noteq> app_audio_state app_globals_init
   \<and> (app_audio_state app_globals_init,
       app_audio_state (fst (loop_iteration 0
        \<lparr>was_pb_pressed = True, dut_id = 0, is_processing = None\<rparr> app_globals_init)))
      \<in> set spec_sequence"
proof -
  have moved: "app_audio_state (fst (loop_iteration 0
        \<lparr>was_pb_pressed = True, dut_id = 0, is_processing = None\<rparr> app_globals_init))
      \<noteq> app_audio_state app_globals_init"
    by (simp add: fst_loop_iteration dispatch_def app_globals_init_def APP_STATE_defs)
  show ?thesis
    using moved state_defined_and_forward [of 0
      "[\<lparr>was_pb_pressed = True, dut_id = 0, is_processing = None\<rparr>]"
      "\<lparr>was_pb_pressed = True, dut_id = 0, is_processing = None\<rparr>" app_globals_init]
    by blast
qed

section \<open>The button flag\<close>

text \<open>
  C5. Whatever the variables and the hardware answers at the start of a pass of the loop,
  the button flag is false when the pass ends. Hence a press is seen by one \<open>switch\<close>
  only: a following pass whose button sample is false leaves the variables alone and
  makes no call besides \<open>bsp_dut_process\<close>, the button sample and \<open>bsp_sleep\<close>.
\<close>

theorem edge_flag_cleared:
  "\<not> bsp_pb_pressed (fst (loop_iteration left env g))
   \<and> (\<not> was_pb_pressed env' \<longrightarrow>
        loop_iteration left env' (fst (loop_iteration left env g))
          = (fst (loop_iteration left env g), idle_calls))"
  using loop_iteration_flag [of left env g]
  by (simp add: loop_iteration_idle)

theorem edge_flag_cleared_witness:
  "\<not> bsp_pb_pressed (fst (loop_iteration 0
        \<lparr>was_pb_pressed = True, dut_id = 0, is_processing = Some False\<rparr>
        \<lparr>app_audio_state = APP_STATE_CHECK_PROCESSING, bsp_pb_pressed = True\<rparr>))
   \<and> \<not> was_pb_pressed \<lparr>was_pb_pressed = False, dut_id = 0, is_processing = Some True\<rparr>
   \<and> loop_iteration 0 \<lparr>was_pb_pressed = False, dut_id = 0, is_processing = Some True\<rparr>
        (fst (loop_iteration 0
          \<lparr>was_pb_pressed = True, dut_id = 0, is_processing = Some False\<rparr>
          \<lparr>app_audio_state = APP_STATE_CHECK_PROCESSING, bsp_pb_pressed = True\<rparr>))
      = (\<lparr>app_audio_state = APP_STATE_CHECK_PROCESSING, bsp_pb_pressed = False\<rparr>,
         [Bsp_dut_process, Bsp_was_pb_pressed BSP_PB_ID_USER, Bsp_sleep])"
  using edge_flag_cleared [of 0
      "\<lparr>was_pb_pressed = True, dut_id = 0, is_processing = Some False\<rparr>"
      "\<lparr>app_audio_state = APP_STATE_CHECK_PROCESSING, bsp_pb_pressed = True\<rparr>"
      "\<lparr>was_pb_pressed = False, dut_id = 0, is_processing = Some True\<rparr>"]
  by (simp add: fst_loop_iteration dispatch_check idle_calls_def)

section \<open>Servicing the device, the default branch, the processing query\<close>

text \<open>
  C8. In every pass of the loop, whatever the state variable and the button flag, the
  calls are: \<open>bsp_dut_process\<close> first, then the button sample, then the calls of the
  \<open>switch\<close>, then \<open>bsp_sleep\<close>; and \<open>bsp_dut_process\<close> occurs exactly once among
  them.
\<close>

theorem dut_process_once_per_iteration:
  "snd (loop_iteration left env g) =
     [Bsp_dut_process, Bsp_was_pb_pressed BSP_PB_ID_USER]
       @ snd (dispatch left env (if was_pb_pressed env then g\<lparr>bsp_pb_pressed := True\<rparr> else g))
       @ [Bsp_sleep]
   \<and> count_list (snd (loop_iteration left env g)) Bsp_dut_process = 1"
  by (simp add: loop_iteration_unfold dispatch_no_process)

text \<open>
  C9. For a value of the state variable outside the twelve defined ones (that is, 12 or
  more), the \<open>switch\<close> makes no call and leaves the variables unchanged; from then on,
  however many passes the loop makes and whatever the hardware answers, the state
  variable keeps that value and every pass makes only the calls of an idle pass.
\<close>

theorem dispatch_default_branch:
  assumes "app_audio_state g \<notin> set defined_states"
  shows "dispatch left env g = (g, [])
       \<and> app_audio_state (fst (while_1 left envs g)) = app_audio_state g
       \<and> snd (while_1 left envs g) = concat (map (\<lambda>env. idle_calls) envs)
       \<and> 12 \<le> app_audio_state g"
  using assms dispatch_undefined [OF assms, of left env] while_1_undefined [OF assms, of left envs]
  by (simp add: defined_states_less)

theorem dispatch_default_branch_witness:
  "(255 :: u8) \<notin> set defined_states
   \<and> dispatch 0 \<lparr>was_pb_pressed = True, dut_id = 0, is_processing = Some True\<rparr>
        \<lparr>app_audio_state = 255, bsp_pb_pressed = True\<rparr>
      = (\<lparr>app_audio_state = 255, bsp_pb_pressed = True\<rparr>, [])
   \<and> app_audio_state (fst (while_1 0
         [\<lparr>was_pb_pressed = True, dut_id = 0, is_processing = Some True\<rparr>,
          \<lparr>was_pb_pressed = True, dut_id = 0, is_processing = Some True\<rparr>]
         \<lparr>app_audio_state = 255, bsp_pb_pressed = True\<rparr>)) = 255
   \<and> snd (while_1 0
         [\<lparr>was_pb_pressed = True, dut_id = 0, is_processing = Some True\<rparr>,
          \<lparr>was_pb_pressed = True, dut_id = 0, is_processing = Some True\<rparr>]
         \<lparr>app_audio_state = 255, bsp_pb_pressed = True\<rparr>)
      = [Bsp_dut_process, Bsp_was_pb_pressed BSP_PB_ID_USER, Bsp_sleep,
         Bsp_dut_process, Bsp_was_pb_pressed BSP_PB_ID_USER, Bsp_sleep]"
proof -
  have out: "app_audio_state \<lparr>app_audio_state = 255, bsp_pb_pressed = True\<rparr> \<notin> set defined_states"
    by (simp add: defined_states_def APP_STATE_defs)
  show ?thesis
    using out dispatch_default_branch [OF out, of 0
      "\<lparr>was_pb_pressed = True, dut_id = 0, is_processing = Some True\<rparr>"
      "[\<lparr>was_pb_pressed = True, dut_id = 0, is_processing = Some True\<rparr>,
        \<lparr>was_pb_pressed = True, dut_id = 0, is_processing = Some True\<rparr>]"]
    by (simp add: idle_calls_def del: while_1.simps)
qed

text \<open>
  C10. In state CHECK_PROCESSING with the button flag true, the processing query is the
  only call of the \<open>switch\<close>, whatever it stores. Unless it stores true, the
  \<open>switch\<close> changes nothing, and the whole pass only clears the flag and makes the
  calls of an idle pass plus the query. The local \<open>is_processing\<close> starts as false:
  a query that stores nothing leaves the state at CHECK_PROCESSING.
\<close>

theorem check_processing_only_query:
  assumes "app_audio_state g = APP_STATE_CHECK_PROCESSING" and "bsp_pb_pressed g"
  shows "snd (dispatch left env g) = [Bsp_dut_is_processing]
       \<and> (is_processing env \<noteq> Some True \<longrightarrow>
            fst (dispatch left env g) = g
            \<and> loop_iteration left env g =
                (g\<lparr>bsp_pb_pressed := False\<rparr>,
                 [Bsp_dut_process, Bsp_was_pb_pressed BSP_PB_ID_USER, Bsp_dut_is_processing,
                  Bsp_sleep]))
       \<and> (is_processing env = None \<longrightarrow>
            app_audio_state (fst (dispatch left env g)) = APP_STATE_CHECK_PROCESSING)"
proof -
  have same: "(if was_pb_pressed env then g\<lparr>bsp_pb_pressed := True\<rparr> else g) = g"
    using assms(2) by simp
  show ?thesis
    unfolding loop_iteration_unfold same dispatch_check [OF assms]
    using assms(1) by simp
qed

theorem check_processing_only_query_witness:
  "snd (dispatch 0 \<lparr>was_pb_pressed = True, dut_id = 0, is_processing = Some False\<rparr>
          \<lparr>app_audio_state = APP_STATE_CHECK_PROCESSING, bsp_pb_pressed = True\<rparr>)
     = [Bsp_dut_is_processing]
   \<and> loop_iteration 0 \<lparr>was_pb_pressed = True, dut_id = 0, is_processing = Some False\<rparr>
          \<lparr>app_audio_state = APP_STATE_CHECK_PROCESSING, bsp_pb_pressed = True\<rparr>
     = (\<lparr>app_audio_state = APP_STATE_CHECK_PROCESSING, bsp_pb_pressed = False\<rparr>,
        [Bsp_dut_process, Bsp_was_pb_pressed BSP_PB_ID_USER, Bsp_dut_is_processing, Bsp_sleep])
   \<and> app_audio_state (fst (dispatch 0 \<lparr>was_pb_pressed = True, dut_id = 0, is_processing = None\<rparr>
          \<lparr>app_audio_state = APP_STATE_CHECK_PROCESSING, bsp_pb_pressed = True\<rparr>))
     = APP_STATE_CHECK_PROCESSING"
  using
    check_processing_only_query
      [of "\<lparr>app_audio_state = APP_STATE_CHECK_PROCESSING, bsp_pb_pressed = True\<rparr>" 0
        "\<lparr>was_pb_pressed = True, dut_id = 0, is_processing = Some False\<rparr>"]
    check_processing_only_query
      [of "\<lparr>app_audio_state = APP_STATE_CHECK_PROCESSING, bsp_pb_pressed = True\<rparr>" 0
        "\<lparr>was_pb_pressed = True, dut_id = 0, is_processing = None\<rparr>"]
  by simp

end
